theory Spec2Isabelle
  imports Main "HOL-Library.Sublist" "HOL-Library.AList"
begin

section \<open>The sliding-window rate limiter (src/lib/rateLimit.ts)\<close>

text \<open>
  Times are milliseconds since the epoch, as \<open>Date.now()\<close> returns them. The clock is
  not part of the repository: each read of \<open>Date.now()\<close> is an explicit argument.
\<close>

record IRateLimitEntry =
  timestamps :: "int list"

text \<open>
  \<open>rateLimitStore\<close> is the module-level \<open>Map<string, IRateLimitEntry>\<close>. The limiter
  mutates the entry object it fetched from the map; the model writes the entry back.
\<close>

type_synonym rateLimitStore = "string \<rightharpoonup> IRateLimitEntry"

text \<open>
  The field \<open>reset\<close> is a JavaScript number. \<open>None\<close> stands for \<open>NaN\<close>, which the
  source produces as \<open>undefined + windowMs\<close> when it reads \<open>entry.timestamps[0]\<close> of an
  empty array (possible only for a limit below 1).
\<close>

record IRateLimitResult =
  success :: bool
  remaining :: int
  reset :: "int option"

definition createRateLimiter ::
  "int \<Rightarrow> int \<Rightarrow> int \<Rightarrow> rateLimitStore \<Rightarrow> string \<Rightarrow> IRateLimitResult \<times> rateLimitStore" where
  "createRateLimiter limit windowMs now store identifier =
     (let windowStart = now - windowMs;
          entry = (case store identifier of
                     None \<Rightarrow> \<lparr>timestamps = []\<rparr>
                   | Some e \<Rightarrow> e);
          kept = filter (\<lambda>t. t > windowStart) (timestamps entry)
      in if int (length kept) \<ge> limit
         then
           (let resetTime = (case kept of
                               [] \<Rightarrow> None
                             | oldestTimestamp # _ \<Rightarrow> Some (oldestTimestamp + windowMs))
            in (\<lparr>success = False, remaining = 0, reset = resetTime\<rparr>,
                store(identifier \<mapsto> \<lparr>timestamps = kept\<rparr>)))
         else
           (let pushed = kept @ [now]
            in (\<lparr>success = True, remaining = limit - int (length pushed),
                 reset = Some (now + windowMs)\<rparr>,
                store(identifier \<mapsto> \<lparr>timestamps = pushed\<rparr>))))"

text \<open>The two exported limiters: 50 requests per 10 s, and 10 requests per 10 s.\<close>

definition rateLimit_limit ::
  "int \<Rightarrow> rateLimitStore \<Rightarrow> string \<Rightarrow> IRateLimitResult \<times> rateLimitStore" where
  "rateLimit_limit = createRateLimiter 50 (10 * 1000)"

definition publicRateLimit_limit ::
  "int \<Rightarrow> rateLimitStore \<Rightarrow> string \<Rightarrow> IRateLimitResult \<times> rateLimitStore" where
  "publicRateLimit_limit = createRateLimiter 10 (10 * 1000)"

text \<open>The timestamp sequence the store holds for an identifier (empty when there is no entry).\<close>

definition log_of :: "rateLimitStore \<Rightarrow> string \<Rightarrow> int list" where
  "log_of store identifier =
     (case store identifier of None \<Rightarrow> [] | Some e \<Rightarrow> timestamps e)"

text \<open>A sequence of checks of one identifier under one policy, one clock reading per check.\<close>

fun run_checks ::
  "int \<Rightarrow> int \<Rightarrow> rateLimitStore \<Rightarrow> string \<Rightarrow> int list \<Rightarrow> IRateLimitResult list \<times> rateLimitStore" where
  "run_checks limit windowMs store identifier [] = ([], store)"
| "run_checks limit windowMs store identifier (now # later) =
     (let (r, store') = createRateLimiter limit windowMs now store identifier;
          (rs, store'') = run_checks limit windowMs store' identifier later
      in (r # rs, store''))"


text \<open>The clock readings of those checks of a sequence that were accepted.\<close>

definition accepted_readings :: "IRateLimitResult list \<Rightarrow> int list \<Rightarrow> int list" where
  "accepted_readings rs nows = map snd (filter (\<lambda>(r, t). success r) (zip rs nows))"

text \<open>
  The log that eleven accepted checks of the subject policy (limit 50), at the times
  0 .. 10 ms, leave for the identifier \<open>u1\<close> in an empty store.
\<close>

definition crowded_store :: rateLimitStore where
  "crowded_store =
     snd (run_checks 50 (10 * 1000) Map.empty ''u1'' [0, 1, 2, 3, 4, 5, 6, 7, 8, 9, 10])"

text \<open>A small store for the closed examples: two identifiers with a log each.\<close>

definition sample_store :: rateLimitStore where
  "sample_store =
     [''a'' \<mapsto> \<lparr>timestamps = [1000, 2000, 3000]\<rparr>, ''b'' \<mapsto> \<lparr>timestamps = [11000]\<rparr>]"

section \<open>The request gate (middleware.ts)\<close>

subsection \<open>Route classification\<close>

definition PUBLIC_ROUTES :: "string list" where
  "PUBLIC_ROUTES = [''/api/health'', ''/api/webhooks/*'']"

text \<open>The string methods of the language that \<open>isPublicRoute\<close> calls.\<close>

definition endsWith :: "string \<Rightarrow> string \<Rightarrow> bool" where
  "endsWith s searchString =
     (length searchString \<le> length s \<and>
      drop (length s - length searchString) s = searchString)"

definition startsWith :: "string \<Rightarrow> string \<Rightarrow> bool" where
  "startsWith s searchString = (take (length searchString) s = searchString)"

text \<open>\<open>s.slice(indexStart, indexEnd)\<close>: a negative index counts from the end.\<close>

definition slice :: "string \<Rightarrow> int \<Rightarrow> int \<Rightarrow> string" where
  "slice s indexStart indexEnd =
     (let len = int (length s);
          lo = (if indexStart < 0 then max (len + indexStart) 0 else min indexStart len);
          hi = (if indexEnd < 0 then max (len + indexEnd) 0 else min indexEnd len)
      in take (nat (hi - lo)) (drop (nat lo) s))"

text \<open>
  \<open>isPublicRoute\<close> over an arbitrary pattern list (the body of the source function), and
  the function of the source, which reads the constant \<open>PUBLIC_ROUTES\<close>.
\<close>

definition isPublicRoute_in :: "string list \<Rightarrow> string \<Rightarrow> bool" where
  "isPublicRoute_in routes pathname =
     list_ex (\<lambda>route.
        if endsWith route ''/*''
        then (let pre = slice route 0 (- 2) in startsWith pathname pre)
        else pathname = route) routes"

definition isPublicRoute :: "string \<Rightarrow> bool" where
  "isPublicRoute = isPublicRoute_in PUBLIC_ROUTES"

subsection \<open>Requests, responses and the collaborators of the gate\<close>

text \<open>
  The parts of a \<open>NextRequest\<close> the gate reads: \<open>req.nextUrl.pathname\<close>, \<open>req.ip\<close>
  (\<open>None\<close> when undefined), and the results of \<open>req.headers.get\<close> for the two headers it
  asks for (\<open>None\<close> when the header is absent).
\<close>

record NextRequest =
  pathname :: string
  ip :: "string option"
  x_forwarded_for :: "string option"
  authorization :: "string option"

text \<open>
  A response is either the pass-through response of \<open>NextResponse.next()\<close> or a terminal
  JSON response of \<open>NextResponse.json\<close>. Headers are an association list under the names
  the source writes; a JSON body is the list of its keys and string values.
\<close>

datatype response_kind = Next | Json

record NextResponse =
  kind :: response_kind
  status :: nat
  headers :: "(string \<times> string) list"
  body :: "(string \<times> string) list"

definition NextResponse_next :: NextResponse where
  "NextResponse_next = \<lparr>kind = Next, status = 200, headers = [], body = []\<rparr>"

definition NextResponse_json ::
  "(string \<times> string) list \<Rightarrow> nat \<Rightarrow> (string \<times> string) list \<Rightarrow> NextResponse" where
  "NextResponse_json b st hs =
     \<lparr>kind = Json, status = st,
      headers = AList.update ''content-type'' ''application/json'' hs, body = b\<rparr>"

definition headers_set :: "string \<Rightarrow> string \<Rightarrow> NextResponse \<Rightarrow> NextResponse" where
  "headers_set name v res = res\<lparr>headers := AList.update name v (headers res)\<rparr>"

record process_env =
  NEXT_PUBLIC_SUPABASE_URL :: "string option"
  NEXT_PUBLIC_SUPABASE_ANON_KEY :: "string option"

text \<open>
  The answer of \<open>supabase.auth.getUser()\<close>: \<open>data.user\<close> and \<open>error\<close>, either of which
  may be null. The verifier itself is an external service: the gate takes it as the
  function \<open>getUser\<close> of the project URL, the anonymous key and the \<open>Authorization\<close> value.
\<close>

record User =
  user_id :: string
  user_email :: "string option"

record UserResponse =
  user :: "User option"
  error :: "string option"

datatype js_error = RangeError

text \<open>\<open>n.toString()\<close> of an integral number, in decimal.\<close>

fun digits :: "nat \<Rightarrow> string" where
  "digits n =
     (if n < 10 then [''0123456789'' ! n]
      else digits (n div 10) @ [''0123456789'' ! (n mod 10)])"

declare digits.simps [simp del]

definition toString :: "int \<Rightarrow> string" where
  "toString n = (if n < 0 then CHR ''-'' # digits (nat (- n)) else digits (nat n))"

text \<open>\<open>Math.ceil(x / 1000)\<close> of an integral \<open>x\<close>.\<close>

definition ceil_div_1000 :: "int \<Rightarrow> int" where
  "ceil_div_1000 x = - ((- x) div 1000)"

text \<open>
  The value of the template literal \<open>cspHeader\<close> after \<open>.replace(/\s{2,}/g, ' ').trim()\<close>.
\<close>

definition cspHeader :: string where
  "cspHeader = ''default-src 'self'; script-src 'self' 'unsafe-inline' 'unsafe-eval'; style-src 'self' 'unsafe-inline'; img-src 'self' blob: data: https:; font-src 'self'; object-src 'none'; base-uri 'self'; form-action 'self'; frame-ancestors 'none'; upgrade-insecure-requests;''"

text \<open>
  The header object of the two 429 responses; they differ in the limit text only.
  \<open>toISOString\<close> is the engine's \<open>Date.prototype.toISOString\<close>, taken as a function of the
  time value; on \<open>NaN\<close> it throws a \<open>RangeError\<close>. \<open>now2\<close> is the second reading of
  \<open>Date.now()\<close>, made while the response is built.
\<close>

definition rateLimitHeaders ::
  "(int \<Rightarrow> string) \<Rightarrow> string \<Rightarrow> IRateLimitResult \<Rightarrow> int \<Rightarrow>
   js_error + (string \<times> string) list" where
  "rateLimitHeaders toISOString limitText r now2 =
     (case reset r of
        None \<Rightarrow> Inl RangeError
      | Some resetAt \<Rightarrow>
          Inr [(''X-RateLimit-Limit'', limitText),
               (''X-RateLimit-Remaining'', toString (remaining r)),
               (''X-RateLimit-Reset'', toISOString resetAt),
               (''Retry-After'', toString (ceil_div_1000 (resetAt - now2)))])"

subsection \<open>The gate\<close>

text \<open>
  \<open>middleware\<close> of the source, with the store passed in and returned. \<open>now\<close> is the clock
  reading inside the limiter. The call of \<open>console.error\<close> on the configuration branch
  writes a log line only and is left out.
\<close>

definition middleware ::
  "(int \<Rightarrow> string) \<Rightarrow> (string \<Rightarrow> string \<Rightarrow> string \<Rightarrow> UserResponse) \<Rightarrow> process_env \<Rightarrow>
   int \<Rightarrow> int \<Rightarrow> rateLimitStore \<Rightarrow> NextRequest \<Rightarrow>
   (js_error + NextResponse) \<times> rateLimitStore" where
  "middleware toISOString getUser env now now2 store req =
     (let res = NextResponse_next;
          res = headers_set ''X-Frame-Options'' ''DENY'' res;
          res = headers_set ''X-Content-Type-Options'' ''nosniff'' res;
          res = headers_set ''X-XSS-Protection'' ''1; mode=block'' res;
          res = headers_set ''Referrer-Policy'' ''strict-origin-when-cross-origin'' res;
          res = headers_set ''Permissions-Policy''
                  ''camera=(), microphone=(), geolocation=()'' res;
          res = headers_set ''Content-Security-Policy'' cspHeader res;
          isPublic = isPublicRoute (pathname req)
      in if isPublic then
           (let ipAddr = (case ip req of
                            Some a \<Rightarrow> a
                          | None \<Rightarrow> (case x_forwarded_for req of
                                        Some h \<Rightarrow> h
                                      | None \<Rightarrow> ''unknown''));
                (r, store') = publicRateLimit_limit now store ipAddr
            in if \<not> success r then
                 (case rateLimitHeaders toISOString ''10'' r now2 of
                    Inl e \<Rightarrow> (Inl e, store')
                  | Inr hs \<Rightarrow>
                      (Inr (NextResponse_json
                              [(''error'', ''Too many requests. Please try again later.'')]
                              429 hs), store'))
               else (Inr (headers_set ''X-RateLimit-Remaining'' (toString (remaining r)) res),
                     store'))
         else
           (case (NEXT_PUBLIC_SUPABASE_URL env, NEXT_PUBLIC_SUPABASE_ANON_KEY env) of
              (Some supabaseUrl, Some supabaseAnonKey) \<Rightarrow>
                if supabaseUrl = [] \<or> supabaseAnonKey = [] then
                  (Inr (NextResponse_json [(''error'', ''Server configuration error'')] 500 []),
                   store)
                else
                  (let auth = getUser supabaseUrl supabaseAnonKey
                                (case authorization req of Some a \<Rightarrow> a | None \<Rightarrow> [])
                   in case (error auth, user auth) of
                        (None, Some u) \<Rightarrow>
                          (let (r, store') = rateLimit_limit now store (user_id u)
                           in if \<not> success r then
                                (case rateLimitHeaders toISOString ''50'' r now2 of
                                   Inl e \<Rightarrow> (Inl e, store')
                                 | Inr hs \<Rightarrow>
                                     (Inr (NextResponse_json
                                             [(''error'', ''Too many requests''),
                                              (''message'',
                                               ''Rate limit exceeded. Please try again later.'')]
                                             429 hs), store'))
                              else
                                (let res = headers_set ''X-User-Id'' (user_id u) res;
                                     res = headers_set ''X-User-Email''
                                             (case user_email u of Some e \<Rightarrow> e | None \<Rightarrow> [])
                                             res;
                                     res = headers_set ''X-RateLimit-Remaining''
                                             (toString (remaining r)) res
                                 in (Inr res, store')))
                      | _ \<Rightarrow>
                          (Inr (NextResponse_json
                                  [(''error'', ''Unauthorized''),
                                   (''message'', ''Valid authentication token required'')]
                                  401 []), store))
            | _ \<Rightarrow>
                (Inr (NextResponse_json [(''error'', ''Server configuration error'')] 500 []),
                 store)))"

subsection \<open>Fixed collaborators for the closed examples\<close>

text \<open>
  A complete configuration, a verifier that rejects every credential, a verifier that
  confirms every credential as one given user, and a stand-in for the date formatter
  (the examples do not depend on what it prints).
\<close>

definition env0 :: process_env where
  "env0 = \<lparr>NEXT_PUBLIC_SUPABASE_URL = Some ''https://example.supabase.co'',
           NEXT_PUBLIC_SUPABASE_ANON_KEY = Some ''anon-key''\<rparr>"

definition reject_all :: "string \<Rightarrow> string \<Rightarrow> string \<Rightarrow> UserResponse" where
  "reject_all url key auth = \<lparr>user = None, error = Some ''invalid JWT''\<rparr>"

definition date_text :: "int \<Rightarrow> string" where
  "date_text t = ''Date('' @ toString t @ '')''"

text \<open>
  Requests for the closed examples: a protected path without an \<open>Authorization\<close> header,
  the public health path from a known address, from a forwarded-for list only, and with
  no address at all. And a store in which the address \<open>1.2.3.4\<close> has ten timestamps.
\<close>

definition req_protected :: NextRequest where
  "req_protected = \<lparr>pathname = ''/api/protected/example'', ip = Some ''1.2.3.4'',
     x_forwarded_for = None, authorization = None\<rparr>"

definition req_health :: NextRequest where
  "req_health = \<lparr>pathname = ''/api/health'', ip = Some ''1.2.3.4'',
     x_forwarded_for = None, authorization = None\<rparr>"

definition req_forwarded :: NextRequest where
  "req_forwarded = \<lparr>pathname = ''/api/health'', ip = None,
     x_forwarded_for = Some ''1.2.3.4, 5.6.7.8'', authorization = None\<rparr>"

definition req_anonymous :: NextRequest where
  "req_anonymous = \<lparr>pathname = ''/api/health'', ip = None,
     x_forwarded_for = None, authorization = None\<rparr>"

definition full_public_store :: rateLimitStore where
  "full_public_store = [''1.2.3.4'' \<mapsto> \<lparr>timestamps = [0, 1, 2, 3, 4, 5, 6, 7, 8, 9]\<rparr>]"

text \<open>
  For the protected path: a verifier that confirms every credential as the user
  \<open>user-42\<close>, a request with a bearer credential, and a store in which that user has fifty
  timestamps.
\<close>

definition accept_user42 :: "string \<Rightarrow> string \<Rightarrow> string \<Rightarrow> UserResponse" where
  "accept_user42 url key auth =
     \<lparr>user = Some \<lparr>user_id = ''user-42'', user_email = None\<rparr>, error = None\<rparr>"

definition req_authorized :: NextRequest where
  "req_authorized = \<lparr>pathname = ''/api/protected/example'', ip = Some ''1.2.3.4'',
     x_forwarded_for = None, authorization = Some ''Bearer token''\<rparr>"

definition full_subject_store :: rateLimitStore where
  "full_subject_store = [''user-42'' \<mapsto> \<lparr>timestamps = replicate 50 0\<rparr>]"

text \<open>
  The reading of "first value wins" for a forwarded-for header, which is a
  comma-separated list of addresses: the text before the first comma. This definition
  follows the words of the specification; the source has no such function.
\<close>

definition first_forwarded_value :: "string \<Rightarrow> string" where
  "first_forwarded_value h = takeWhile (\<lambda>c. c \<noteq> CHR '','') h"


section \<open>Properties of the rate limiter\<close>

text \<open>The timestamps of a log that a check at time \<open>now\<close> keeps: those after \<open>now - windowMs\<close>.\<close>

abbreviation live_at :: "int \<Rightarrow> int \<Rightarrow> int list \<Rightarrow> int list" where
  "live_at windowMs now xs \<equiv> filter (\<lambda>t. now - windowMs < t) xs"

subsection \<open>One check, read off the log of its identifier\<close>

lemma createRateLimiter_success:
  "success (fst (createRateLimiter L W now store i)) \<longleftrightarrow>
     int (length (live_at W now (log_of store i))) < L"
  by (auto simp: createRateLimiter_def log_of_def Let_def split: option.splits)

lemma createRateLimiter_log:
  "log_of (snd (createRateLimiter L W now store i)) i =
     (if int (length (live_at W now (log_of store i))) < L
      then live_at W now (log_of store i) @ [now]
      else live_at W now (log_of store i))"
  by (auto simp: createRateLimiter_def log_of_def Let_def split: option.splits)

lemma createRateLimiter_remaining:
  "remaining (fst (createRateLimiter L W now store i)) =
     (if int (length (live_at W now (log_of store i))) < L
      then L - (int (length (live_at W now (log_of store i))) + 1)
      else 0)"
  by (auto simp: createRateLimiter_def log_of_def Let_def split: option.splits)

lemma createRateLimiter_reset:
  "reset (fst (createRateLimiter L W now store i)) =
     (if int (length (live_at W now (log_of store i))) < L
      then Some (now + W)
      else (case live_at W now (log_of store i) of
              [] \<Rightarrow> None
            | t # _ \<Rightarrow> Some (t + W)))"
  by (auto simp: createRateLimiter_def log_of_def Let_def split: option.splits)

lemma createRateLimiter_frame:
  "j \<noteq> i \<Longrightarrow> snd (createRateLimiter L W now store i) j = store j"
  by (simp add: createRateLimiter_def Let_def)

lemma createRateLimiter_result_cong:
  "store i = store2 i \<Longrightarrow>
     fst (createRateLimiter L W now store i) = fst (createRateLimiter L W now store2 i)"
  by (simp add: createRateLimiter_def Let_def)

lemma createRateLimiter_entry_cong:
  "store i = store2 i \<Longrightarrow>
     snd (createRateLimiter L W now store i) i = snd (createRateLimiter L W now store2 i) i"
  by (simp add: createRateLimiter_def Let_def)

text \<open>
  A log that holds at most \<open>limit\<close> timestamps stays so under checks of that limit: a
  timestamp is appended only below the limit. Every log built by one policy alone, from
  an absent entry, is of this kind.
\<close>

lemma createRateLimiter_log_bounded:
  assumes "int (length (log_of store i)) \<le> L"
  shows "int (length (log_of (snd (createRateLimiter L W now store i)) i)) \<le> L"
proof -
  have "length (live_at W now (log_of store i)) \<le> length (log_of store i)"
    by (rule length_filter_le)
  with assms have "int (length (live_at W now (log_of store i))) \<le> L"
    by linarith
  then show ?thesis
    by (simp add: createRateLimiter_log)
qed

subsection \<open>Sequences of checks\<close>

lemma run_checks_cong:
  "store i = store2 i \<Longrightarrow>
     fst (run_checks L W store i nows) = fst (run_checks L W store2 i nows)"
proof (induction nows arbitrary: store store2)
  case Nil
  then show ?case by simp
next
  case (Cons now later)
  have r: "fst (createRateLimiter L W now store i) = fst (createRateLimiter L W now store2 i)"
    using Cons.prems by (rule createRateLimiter_result_cong)
  have e: "snd (createRateLimiter L W now store i) i = snd (createRateLimiter L W now store2 i) i"
    using Cons.prems by (rule createRateLimiter_entry_cong)
  have "fst (run_checks L W (snd (createRateLimiter L W now store i)) i later) =
        fst (run_checks L W (snd (createRateLimiter L W now store2 i)) i later)"
    using e by (rule Cons.IH)
  with r show ?case
    by (simp add: case_prod_unfold Let_def)
qed

text \<open>
  Checks at times inside a half-open window \<open>[a, a + W)\<close>, on a log whose timestamps are
  either expired for the whole window or inside it: nothing inside the window expires, so
  the \<open>k\<close>-th check sees the \<open>n\<close> timestamps the window held at the start and those of the
  accepted checks before it.
\<close>

lemma run_checks_in_window:
  assumes inwin: "\<forall>t \<in> set nows. a \<le> t \<and> t < a + W"
    and old: "\<forall>s \<in> set (log_of store i). s \<le> a - W \<or> a \<le> s"
  shows "map success (fst (run_checks L W store i nows)) =
         map (\<lambda>k. int (length (filter (\<lambda>s. a \<le> s) (log_of store i)) + k) < L)
           [0..<length nows]"
  using inwin old
proof (induction nows arbitrary: store)
  case Nil
  then show ?case by simp
next
  case (Cons now later)
  let ?log = "log_of store i"
  let ?n = "length (filter (\<lambda>s. a \<le> s) ?log)"
  let ?store' = "snd (createRateLimiter L W now store i)"
  from Cons.prems have now: "a \<le> now" "now < a + W" by simp_all
  have live: "live_at W now ?log = filter (\<lambda>s. a \<le> s) ?log"
    using Cons.prems(2) now by (intro filter_cong) auto
  have head: "success (fst (createRateLimiter L W now store i)) \<longleftrightarrow> int ?n < L"
    by (simp add: createRateLimiter_success live)
  have log': "log_of ?store' i =
      (if int ?n < L then filter (\<lambda>s. a \<le> s) ?log @ [now] else filter (\<lambda>s. a \<le> s) ?log)"
    by (simp add: createRateLimiter_log live)
  have old': "\<forall>s \<in> set (log_of ?store' i). s \<le> a - W \<or> a \<le> s"
    using now by (auto simp: log')
  have n': "length (filter (\<lambda>s. a \<le> s) (log_of ?store' i)) =
      (if int ?n < L then Suc ?n else ?n)"
    using now by (simp add: log')
  have later: "\<forall>t \<in> set later. a \<le> t \<and> t < a + W"
    using Cons.prems(1) by simp
  have tail: "map success (fst (run_checks L W ?store' i later)) =
      map (\<lambda>k. int ((if int ?n < L then Suc ?n else ?n) + k) < L) [0..<length later]"
    using Cons.IH [OF later old'] by (simp only: n')
  have shift: "map (\<lambda>k. int ((if int ?n < L then Suc ?n else ?n) + k) < L) [0..<length later] =
      map (\<lambda>k. int (?n + Suc k) < L) [0..<length later]"
    by (rule map_cong) auto
  have tail': "map success (fst (run_checks L W ?store' i later)) =
      map (\<lambda>k. int (?n + Suc k) < L) [0..<length later]"
    using tail shift by (rule trans)
  have upt: "[0..<length (now # later)] = 0 # map Suc [0..<length later]"
    by (simp add: upt_conv_Cons map_Suc_upt del: upt_Suc)
  show ?case
    by (simp only: upt)
      (simp add: case_prod_unfold Let_def head tail' comp_def add.left_commute del: upt_Suc)
qed

text \<open>
  Claim C1, amended. Under a policy with limit \<open>L\<close> and window \<open>W\<close>, take any sequence of
  checks of one identifier whose clock readings all fall within one window of duration
  \<open>W\<close>, that is, a half-open interval \<open>[a, a + W)\<close>, where at the start of the window the
  identifier has no timestamp that is still live in it (no entry, or only timestamps
  not after \<open>a - W\<close>). Then exactly the first \<open>L\<close> checks return \<open>success = true\<close>: the
  check number \<open>k\<close>, counted from 0, is allowed if and only if \<open>k < L\<close>, so the
  \<open>(L+1)\<close>-th and every later one in the window is refused. The window is exact: a
  reading at distance \<open>W\<close> or more from \<open>a\<close> is outside of it, and nothing is rounded to a
  bucket.
\<close>

theorem first_L_checks_in_window_allowed:
  assumes inwin: "\<forall>t \<in> set nows. a \<le> t \<and> t < a + W"
    and old: "\<forall>s \<in> set (log_of store i). s \<le> a - W"
  shows "map success (fst (run_checks L W store i nows)) =
         map (\<lambda>k. int k < L) [0..<length nows]"
proof (cases nows)
  case Nil
  then show ?thesis by simp
next
  case (Cons now later)
  with inwin have "0 < W" by auto
  with old have none: "filter (\<lambda>s. a \<le> s) (log_of store i) = []"
    by (auto simp: filter_empty_conv)
  from old have "\<forall>s \<in> set (log_of store i). s \<le> a - W \<or> a \<le> s"
    by simp
  from run_checks_in_window [OF inwin this, of L] show ?thesis
    by (simp add: none)
qed

text \<open>
  The theorem at limit 2 and window 10000 ms, on an identifier whose only timestamp
  expired: readings 1000, 1500 and 10999 lie in \<open>[1000, 11000)\<close>; the first two checks
  are allowed and the third is refused.
\<close>

theorem first_L_checks_in_window_allowed_witness:
  "list_all (\<lambda>t. 1000 \<le> t \<and> t < 1000 + 10000) [1000, 1500, 10999 :: int] \<and>
   list_all (\<lambda>s. s \<le> 1000 - 10000)
     (log_of [''1.2.3.4'' \<mapsto> \<lparr>timestamps = [- 9000]\<rparr>] ''1.2.3.4'') \<and>
   map success (fst (run_checks 2 10000 [''1.2.3.4'' \<mapsto> \<lparr>timestamps = [- 9000]\<rparr>]
      ''1.2.3.4'' [1000, 1500, 10999])) = [True, True, False]"
  using first_L_checks_in_window_allowed [of "[1000, 1500, 10999]" 1000 10000
      "[''1.2.3.4'' \<mapsto> \<lparr>timestamps = [- 9000]\<rparr>]" "''1.2.3.4''" 2]
  by (simp add: log_of_def upt_conv_Cons)


text \<open>
  Claim C1 as stated fails for a window that starts while an earlier timestamp is still
  live. At limit 2 and window 10000 ms, checks of a new identifier at 0, 5000 and 6000
  return true, true, false. The window \<open>[1, 10001)\<close> does not hold the reading 0; it
  holds the checks at 5000 and 6000, and of these two, the first two checks in that
  window, the second is refused, because the timestamp 0 is still live at 6000.
\<close>

theorem first_checks_of_a_later_window_not_all_allowed:
  "map success (fst (run_checks 2 10000 Map.empty ''1.2.3.4'' [0, 5000, 6000])) =
     [True, True, False] \<and>
   \<not> (1 \<le> (0::int)) \<and>
   (1::int) \<le> 5000 \<and> (5000::int) < 1 + 10000 \<and> (1::int) \<le> 6000 \<and> (6000::int) < 1 + 10000 \<and>
   map success (fst (run_checks 2 10000
       (snd (run_checks 2 10000 Map.empty ''1.2.3.4'' [0])) ''1.2.3.4'' [5000, 6000])) =
     [True, False]"
  by (simp add: createRateLimiter_def)

subsection \<open>The window slides\<close>

text \<open>
  For a positive window and clock readings that do not go back, the log after a sequence
  of checks holds exactly the timestamps, old or accepted in the sequence, that are
  after the last reading minus the window. Hence a check at time \<open>t\<close> is allowed if and
  only if fewer than \<open>L\<close> of these timestamps are after \<open>t - W\<close>: the count is over the
  trailing window of the check itself, not over a fixed bucket.
\<close>

lemma run_checks_append:
  "run_checks L W store i (xs @ ys) =
     (fst (run_checks L W store i xs) @ fst (run_checks L W (snd (run_checks L W store i xs)) i ys),
      snd (run_checks L W (snd (run_checks L W store i xs)) i ys))"
  by (induction xs arbitrary: store) (simp_all add: case_prod_unfold Let_def)

lemma length_run_checks: "length (fst (run_checks L W store i nows)) = length nows"
  by (induction nows arbitrary: store) (simp_all add: case_prod_unfold Let_def)

lemma live_at_later:
  assumes "t \<le> t'"
  shows "live_at W t' (live_at W t xs) = live_at W t' xs"
  using assms by (induction xs) auto

lemma run_checks_sliding_log:
  assumes "0 < W" "sorted nows" "nows \<noteq> []"
  shows "log_of (snd (run_checks L W store i nows)) i =
     live_at W (last nows)
       (log_of store i @ accepted_readings (fst (run_checks L W store i nows)) nows)"
  using assms(2,3)
proof (induction nows arbitrary: store)
  case Nil
  then show ?case by simp
next
  case (Cons now later)
  let ?store' = "snd (createRateLimiter L W now store i)"
  let ?r = "fst (createRateLimiter L W now store i)"
  have log': "log_of ?store' i =
      live_at W now (log_of store i) @ (if success ?r then [now] else [])"
    by (simp add: createRateLimiter_log createRateLimiter_success)
  show ?case
  proof (cases "later = []")
    case True
    then show ?thesis
      using assms(1) by (simp add: case_prod_unfold Let_def log' accepted_readings_def)
  next
    case False
    from Cons.prems have s: "sorted later" and le: "now \<le> last later"
      using False by auto
    have IH: "log_of (snd (run_checks L W ?store' i later)) i =
        live_at W (last later)
          (log_of ?store' i @ accepted_readings (fst (run_checks L W ?store' i later)) later)"
      using s False by (rule Cons.IH)
    have "live_at W (last later) (log_of ?store' i) =
        live_at W (last later) (live_at W now (log_of store i)) @
        live_at W (last later) (if success ?r then [now] else [])"
      by (simp only: log' filter_append)
    also have "live_at W (last later) (live_at W now (log_of store i)) =
        live_at W (last later) (log_of store i)"
      using le by (rule live_at_later)
    finally have "live_at W (last later) (log_of ?store' i) =
        live_at W (last later) (log_of store i @ (if success ?r then [now] else []))"
      by (simp only: filter_append)
    with IH show ?thesis
      using False by (simp add: case_prod_unfold Let_def accepted_readings_def)
  qed
qed

lemma sliding_window_exact:
  assumes W: "0 < W" and srt: "sorted (nows @ [t])"
  shows "success (last (fst (run_checks L W store i (nows @ [t])))) \<longleftrightarrow>
     int (length (live_at W t
       (log_of store i @ accepted_readings (fst (run_checks L W store i nows)) nows))) < L"
proof (cases "nows = []")
  case True
  then show ?thesis
    by (simp add: case_prod_unfold Let_def createRateLimiter_success accepted_readings_def)
next
  case False
  from srt have s: "sorted nows" and le: "last nows \<le> t"
    using False by (auto simp: sorted_append)
  have "success (last (fst (run_checks L W store i (nows @ [t])))) \<longleftrightarrow>
      success (fst (createRateLimiter L W t (snd (run_checks L W store i nows)) i))"
    by (simp add: run_checks_append case_prod_unfold Let_def)
  also have "\<dots> \<longleftrightarrow> int (length (live_at W t (log_of (snd (run_checks L W store i nows)) i))) < L"
    by (rule createRateLimiter_success)
  also have "live_at W t (log_of (snd (run_checks L W store i nows)) i) =
      live_at W t (log_of store i @ accepted_readings (fst (run_checks L W store i nows)) nows)"
    by (simp only: run_checks_sliding_log [OF W s False] live_at_later [OF le])
  finally show ?thesis .
qed

subsection \<open>The decision of one check\<close>

lemma hd_filter_sorted_Min:
  assumes "sorted xs" "filter P xs \<noteq> []"
  shows "hd (filter P xs) = Min (set (filter P xs))"
proof -
  have s: "sorted (filter P xs)"
    using assms(1) by (rule sorted_wrt_filter)
  obtain y ys where e: "filter P xs = y # ys"
    using assms(2) by (cases "filter P xs") auto
  from s e have "\<forall>z \<in> set ys. y \<le> z" by simp
  then have "Min (set (y # ys)) = y"
    by (intro Min_eqI) auto
  with e show ?thesis by simp
qed

text \<open>
  Claim C2, amended. A check first drops every timestamp that is not after
  \<open>now - windowMs\<close> (so all that are older than it); \<open>kept\<close> is the sequence that
  survives. If the count of \<open>kept\<close> is at least the limit, the check rejects with
  \<open>remaining = 0\<close>, stores \<open>kept\<close>, and \<open>reset\<close> is the first timestamp of \<open>kept\<close> plus
  \<open>windowMs\<close>; that first timestamp is the oldest one when the log is in time order.
  Otherwise it appends \<open>now\<close> and accepts with \<open>reset = now + windowMs\<close> and
  \<open>remaining = limit - (count + 1)\<close>: the source subtracts the length of the sequence
  after the append, not the count of the surviving timestamps.
\<close>

theorem check_drops_then_decides:
  assumes run: "createRateLimiter L W now store i = (r, store')"
    and kept: "kept = filter (\<lambda>t. now - W < t) (log_of store i)"
  shows "(\<forall>t \<in> set (log_of store i). t < now - W \<longrightarrow> t \<notin> set kept) \<and>
         (L \<le> int (length kept) \<longrightarrow>
            \<not> success r \<and> remaining r = 0 \<and> log_of store' i = kept \<and>
            (kept \<noteq> [] \<longrightarrow> reset r = Some (hd kept + W)) \<and>
            (kept \<noteq> [] \<and> sorted (log_of store i) \<longrightarrow> reset r = Some (Min (set kept) + W))) \<and>
         (int (length kept) < L \<longrightarrow>
            success r \<and> remaining r = L - (int (length kept) + 1) \<and>
            reset r = Some (now + W) \<and> log_of store' i = kept @ [now])"
proof -
  have r: "r = fst (createRateLimiter L W now store i)"
    and s: "store' = snd (createRateLimiter L W now store i)"
    using run by simp_all
  have drop: "\<forall>t \<in> set (log_of store i). t < now - W \<longrightarrow> t \<notin> set kept"
    by (auto simp: kept)
  have rej: "\<not> success r \<and> remaining r = 0 \<and> log_of store' i = kept \<and>
            (kept \<noteq> [] \<longrightarrow> reset r = Some (hd kept + W)) \<and>
            (kept \<noteq> [] \<and> sorted (log_of store i) \<longrightarrow> reset r = Some (Min (set kept) + W))"
    if "L \<le> int (length kept)"
  proof -
    have hdk: "kept \<noteq> [] \<Longrightarrow> reset r = Some (hd kept + W)"
      using that by (cases kept) (simp_all add: r createRateLimiter_reset kept [symmetric])
    moreover have "kept \<noteq> [] \<Longrightarrow> sorted (log_of store i) \<Longrightarrow> hd kept = Min (set kept)"
      unfolding kept by (rule hd_filter_sorted_Min)
    ultimately show ?thesis
      using that
      by (simp add: r s createRateLimiter_success createRateLimiter_remaining
          createRateLimiter_log kept [symmetric])
  qed
  have acc: "success r \<and> remaining r = L - (int (length kept) + 1) \<and>
            reset r = Some (now + W) \<and> log_of store' i = kept @ [now]"
    if "int (length kept) < L"
    using that
    by (simp add: r s createRateLimiter_success createRateLimiter_remaining
        createRateLimiter_reset createRateLimiter_log kept [symmetric])
  from drop rej acc show ?thesis by blast
qed


text \<open>
  The theorem on the sample log \<open>[1000, 2000, 3000]\<close> at time 11500, window 10000 ms:
  the timestamp 1000 is dropped; limit 2 rejects with reset 2000 + 10000, limit 3 appends
  and accepts with remaining 3 - 3.
\<close>

theorem check_drops_then_decides_witness:
  "\<not> success (fst (createRateLimiter 2 10000 11500 sample_store ''a'')) \<and>
   remaining (fst (createRateLimiter 2 10000 11500 sample_store ''a'')) = 0 \<and>
   reset (fst (createRateLimiter 2 10000 11500 sample_store ''a'')) = Some 12000 \<and>
   log_of (snd (createRateLimiter 2 10000 11500 sample_store ''a'')) ''a'' = [2000, 3000] \<and>
   success (fst (createRateLimiter 3 10000 11500 sample_store ''a'')) \<and>
   remaining (fst (createRateLimiter 3 10000 11500 sample_store ''a'')) = 0 \<and>
   reset (fst (createRateLimiter 3 10000 11500 sample_store ''a'')) = Some 21500 \<and>
   log_of (snd (createRateLimiter 3 10000 11500 sample_store ''a'')) ''a'' =
     [2000, 3000, 11500]"
proof -
  have kept: "[2000, 3000] = filter (\<lambda>t. 11500 - 10000 < t) (log_of sample_store ''a'')"
    by (simp add: log_of_def sample_store_def)
  have run2: "createRateLimiter 2 10000 11500 sample_store ''a'' =
      (fst (createRateLimiter 2 10000 11500 sample_store ''a''),
       snd (createRateLimiter 2 10000 11500 sample_store ''a''))"
    by simp
  have run3: "createRateLimiter 3 10000 11500 sample_store ''a'' =
      (fst (createRateLimiter 3 10000 11500 sample_store ''a''),
       snd (createRateLimiter 3 10000 11500 sample_store ''a''))"
    by simp
  from check_drops_then_decides [OF run2 kept] check_drops_then_decides [OF run3 kept]
  show ?thesis by simp
qed

text \<open>
  Claim C2 as stated fails on \<open>remaining\<close>. The first check of a new identifier under the
  public policy (limit 10): no timestamp survives, so the count of surviving timestamps
  is 0, the check accepts, and \<open>remaining\<close> is 9, not \<open>limit - count = 10\<close>.
\<close>

theorem remaining_is_not_limit_minus_surviving_count:
  "\<not> (remaining (fst (createRateLimiter 10 10000 0 Map.empty ''1.2.3.4'')) =
        10 - int (length (filter (\<lambda>t. 0 - 10000 < t) (log_of Map.empty ''1.2.3.4''))))"
  by (simp add: createRateLimiter_def log_of_def)

subsection \<open>Waiting until the reset time\<close>

text \<open>
  Claim C8, amended. An identifier was just rejected, with reset time \<open>R\<close>, by a policy
  of limit \<open>L\<close>, and its log held at most \<open>L\<close> timestamps before that check (as every log
  does that this policy alone has written). Then the next check of the identifier under
  the same policy, at any time from \<open>R\<close> on, is allowed.
\<close>

theorem check_at_reset_allowed_when_log_within_limit:
  assumes run: "createRateLimiter L W now store i = (r, store')"
    and rej: "\<not> success r"
    and rst: "reset r = Some R"
    and wait: "R \<le> now'"
    and bound: "int (length (log_of store i)) \<le> L"
  shows "success (fst (createRateLimiter L W now' store' i))"
proof -
  let ?kept = "live_at W now (log_of store i)"
  have r: "r = fst (createRateLimiter L W now store i)"
    and s: "store' = snd (createRateLimiter L W now store i)"
    using run by simp_all
  from rej have full: "L \<le> int (length ?kept)"
    by (simp add: r createRateLimiter_success)
  have "length ?kept \<le> length (log_of store i)" by simp
  with bound full have len: "int (length ?kept) = L" by linarith
  from rej have log': "log_of store' i = ?kept"
    by (simp add: r s createRateLimiter_success createRateLimiter_log)
  from rst full obtain t rest where k: "?kept = t # rest" and R: "R = t + W"
    by (cases ?kept) (auto simp: r createRateLimiter_reset)
  from R wait have gone: "\<not> now' - W < t" by simp
  have "length (live_at W now' rest) < Suc (length rest)"
    by (rule le_imp_less_Suc) (rule length_filter_le)
  then have "length (live_at W now' (t # rest)) < length (t # rest)"
    using gone by simp
  then have "int (length (live_at W now' ?kept)) < int (length ?kept)"
    by (simp only: k of_nat_less_iff)
  with len show ?thesis
    by (simp add: createRateLimiter_success log')
qed

text \<open>
  The theorem on the sample log \<open>[1000, 2000, 3000]\<close> at limit 3: the check at 3500 is
  rejected with reset 11000, and the check at 11000 is allowed.
\<close>

theorem check_at_reset_allowed_when_log_within_limit_witness:
  "\<not> success (fst (createRateLimiter 3 10000 3500 sample_store ''a'')) \<and>
   reset (fst (createRateLimiter 3 10000 3500 sample_store ''a'')) = Some 11000 \<and>
   int (length (log_of sample_store ''a'')) \<le> 3 \<and>
   success (fst (createRateLimiter 3 10000 11000
      (snd (createRateLimiter 3 10000 3500 sample_store ''a'')) ''a''))"
  using check_at_reset_allowed_when_log_within_limit [of 3 10000 3500 sample_store "''a''"
      "fst (createRateLimiter 3 10000 3500 sample_store ''a'')"
      "snd (createRateLimiter 3 10000 3500 sample_store ''a'')" 11000 11000]
  by (simp add: createRateLimiter_success createRateLimiter_reset log_of_def sample_store_def)

lemma crowded_store_log: "log_of crowded_store ''u1'' = [0, 1, 2, 3, 4, 5, 6, 7, 8, 9, 10]"
  by (simp add: crowded_store_def createRateLimiter_def log_of_def)

text \<open>
  Claim C8 as stated fails where the other policy has written the log. The subject
  policy accepts eleven checks of \<open>u1\<close> at the times 0 .. 10. A check of the same string
  under the public policy (limit 10) at time 11 is rejected with reset 0 + 10000. The
  check at time 10000 drops the timestamp 0 only: ten timestamps are left, and it is
  rejected again.
\<close>

theorem check_at_reset_rejected_on_shared_log:
  "\<not> success (fst (publicRateLimit_limit 11 crowded_store ''u1'')) \<and>
   reset (fst (publicRateLimit_limit 11 crowded_store ''u1'')) = Some 10000 \<and>
   \<not> success (fst (publicRateLimit_limit 10000
        (snd (publicRateLimit_limit 11 crowded_store ''u1'')) ''u1''))"
  by (simp add: publicRateLimit_limit_def createRateLimiter_success createRateLimiter_reset
      createRateLimiter_log crowded_store_log)

subsection \<open>Identifiers and policies\<close>

text \<open>
  Claim C9. A check of \<open>id1\<close>, under any policy, leaves the store entry of every other
  identifier \<open>id2\<close> as it was, and with it the results of every sequence of checks of
  \<open>id2\<close> that follows, under any policy.
\<close>

theorem other_identifier_unaffected:
  "id1 \<noteq> id2 \<Longrightarrow>
     snd (createRateLimiter L W now store id1) id2 = store id2 \<and>
     fst (run_checks L' W' (snd (createRateLimiter L W now store id1)) id2 nows) =
       fst (run_checks L' W' store id2 nows)"
  using createRateLimiter_frame [of id2 id1 L W now store]
    run_checks_cong [of "snd (createRateLimiter L W now store id1)" id2 store L' W' nows]
  by simp

text \<open>
  The theorem on the sample store: a check of \<open>a\<close> changes neither the entry of \<open>b\<close> nor
  the results of two later checks of \<open>b\<close>.
\<close>

theorem other_identifier_unaffected_witness:
  "''a'' \<noteq> ''b'' \<and>
   snd (createRateLimiter 2 10000 11500 sample_store ''a'') ''b'' = sample_store ''b'' \<and>
   fst (run_checks 1 10000 (snd (createRateLimiter 2 10000 11500 sample_store ''a'')) ''b''
          [11600, 21000]) =
     fst (run_checks 1 10000 sample_store ''b'' [11600, 21000])"
  using other_identifier_unaffected [of "''a''" "''b''" 2 10000 11500 sample_store 1 10000
      "[11600, 21000]"]
  by simp

text \<open>
  Claim C10. The subject policy (50 per 10 s) and the public policy (10 per 10 s) read
  and write one log per identifier string, with nothing of the policy in the key. Each
  decides on the timestamps of that log that are live at its clock reading, and each
  appends its reading to that log when it accepts. So a check under one policy, made on
  the store the other policy has left, counts the timestamp the other one appended.
\<close>

theorem policies_share_one_log:
  "log_of (snd (rateLimit_limit now store s)) s =
     live_at 10000 now (log_of store s) @
       (if length (live_at 10000 now (log_of store s)) < 50 then [now] else []) \<and>
   log_of (snd (publicRateLimit_limit now store s)) s =
     live_at 10000 now (log_of store s) @
       (if length (live_at 10000 now (log_of store s)) < 10 then [now] else []) \<and>
   (success (fst (publicRateLimit_limit now' (snd (rateLimit_limit now store s)) s)) \<longleftrightarrow>
      length (live_at 10000 now' (live_at 10000 now (log_of store s) @
        (if length (live_at 10000 now (log_of store s)) < 50 then [now] else []))) < 10) \<and>
   (success (fst (rateLimit_limit now' (snd (publicRateLimit_limit now store s)) s)) \<longleftrightarrow>
      length (live_at 10000 now' (live_at 10000 now (log_of store s) @
        (if length (live_at 10000 now (log_of store s)) < 10 then [now] else []))) < 50)"
  by (simp add: rateLimit_limit_def publicRateLimit_limit_def createRateLimiter_success
      createRateLimiter_log)

text \<open>
  An instance: ten checks of \<open>u1\<close> accepted by the subject policy use up the quota of
  the public policy for the string \<open>u1\<close>, which a new store would grant.
\<close>

lemma subject_checks_consume_public_quota:
  "success (fst (publicRateLimit_limit 11 Map.empty ''u1'')) \<and>
   \<not> success (fst (publicRateLimit_limit 11
        (snd (run_checks 50 (10 * 1000) Map.empty ''u1'' [0, 1, 2, 3, 4, 5, 6, 7, 8, 9])) ''u1''))"
  by (simp add: publicRateLimit_limit_def createRateLimiter_def)


section \<open>Properties of the gate\<close>

subsection \<open>Route classification\<close>

lemma endsWith_suffix: "endsWith s t \<longleftrightarrow> suffix t s"
proof
  assume "endsWith s t"
  then have "s = take (length s - length t) s @ t"
    by (metis append_take_drop_id endsWith_def)
  then show "suffix t s" by (rule suffixI)
next
  assume "suffix t s"
  then obtain zs where "s = zs @ t" by (auto simp: suffix_def)
  then show "endsWith s t" by (simp add: endsWith_def)
qed

lemma startsWith_prefix: "startsWith s t \<longleftrightarrow> prefix t s"
proof
  assume "startsWith s t"
  then have "s = t @ drop (length t) s"
    by (metis append_take_drop_id startsWith_def)
  then show "prefix t s" by (rule prefixI)
next
  assume "prefix t s"
  then obtain zs where "s = t @ zs" by (auto simp: prefix_def)
  then show "startsWith s t" by (simp add: startsWith_def)
qed

lemma slice_strip_marker: "slice (pre @ ''/*'') 0 (- 2) = pre"
  by (simp add: slice_def)

lemma route_matches:
  "(if endsWith r ''/*'' then (let pre = slice r 0 (- 2) in startsWith p pre) else p = r) \<longleftrightarrow>
   (\<not> suffix ''/*'' r \<and> p = r) \<or> (\<exists>pre. r = pre @ ''/*'' \<and> prefix pre p)"
proof (cases "suffix ''/*'' r")
  case True
  then obtain pre where r: "r = pre @ ''/*''" by (auto simp: suffix_def)
  show ?thesis
    using True by (simp add: endsWith_suffix startsWith_prefix r slice_strip_marker)
next
  case False
  then have "\<And>pre. r \<noteq> pre @ ''/*''" by (auto simp: suffix_def)
  with False show ?thesis by (simp add: endsWith_suffix)
qed

text \<open>
  Claim C4. A path is public if and only if some pattern of the list matches it: a
  pattern that does not end in the marker \<open>/*\<close> matches the path equal to it, and a
  pattern \<open>pre/*\<close> matches every path that starts with \<open>pre\<close>. A path that no pattern
  matches is protected. With the pattern \<open>/api/webhooks/*\<close>, and with the list of the
  source, \<open>/api/webhooks/stripe\<close> is public and \<open>/api/other\<close> is protected.
\<close>

theorem isPublicRoute_matches_patterns:
  "(isPublicRoute_in routes p \<longleftrightarrow>
      (\<exists>r \<in> set routes. (\<not> suffix ''/*'' r \<and> p = r) \<or> (\<exists>pre. r = pre @ ''/*'' \<and> prefix pre p))) \<and>
   isPublicRoute_in [''/api/webhooks/*''] ''/api/webhooks/stripe'' \<and>
   \<not> isPublicRoute_in [''/api/webhooks/*''] ''/api/other'' \<and>
   isPublicRoute ''/api/webhooks/stripe'' \<and>
   \<not> isPublicRoute ''/api/other''"
proof -
  have "isPublicRoute_in routes p \<longleftrightarrow>
      (\<exists>r \<in> set routes. (\<not> suffix ''/*'' r \<and> p = r) \<or> (\<exists>pre. r = pre @ ''/*'' \<and> prefix pre p))"
    unfolding isPublicRoute_in_def list_ex_iff by (simp only: route_matches)
  moreover have "isPublicRoute_in [''/api/webhooks/*''] ''/api/webhooks/stripe''"
    by (simp add: isPublicRoute_in_def endsWith_def startsWith_def slice_def)
  moreover have "\<not> isPublicRoute_in [''/api/webhooks/*''] ''/api/other''"
    by (simp add: isPublicRoute_in_def endsWith_def startsWith_def slice_def)
  moreover have "isPublicRoute ''/api/webhooks/stripe''"
    by (simp add: isPublicRoute_def PUBLIC_ROUTES_def isPublicRoute_in_def endsWith_def
        startsWith_def slice_def)
  moreover have "\<not> isPublicRoute ''/api/other''"
    by (simp add: isPublicRoute_def PUBLIC_ROUTES_def isPublicRoute_in_def endsWith_def
        startsWith_def slice_def)
  ultimately show ?thesis by blast
qed

lemma not_public_example: "\<not> isPublicRoute ''/api/protected/example''"
  by (simp add: isPublicRoute_def PUBLIC_ROUTES_def isPublicRoute_in_def endsWith_def
      startsWith_def slice_def)

lemma public_health: "isPublicRoute ''/api/health''"
  by (simp add: isPublicRoute_def PUBLIC_ROUTES_def isPublicRoute_in_def endsWith_def
      startsWith_def slice_def)

subsection \<open>Rejections for a failed credential\<close>

text \<open>
  Claim C6. A request for a protected path, with the verifier configured, whose
  verification fails (the verifier reports an error or no user; a missing
  \<open>Authorization\<close> header reaches the verifier as the empty string) gets the terminal
  401 response with the body \<open>{error: "Unauthorized", message: ...}\<close>, and the store is
  returned as it was: no check is made and no timestamp is recorded.
\<close>

theorem unauthenticated_request_gets_401_store_unchanged:
  assumes prot: "\<not> isPublicRoute (pathname req)"
    and url: "NEXT_PUBLIC_SUPABASE_URL env = Some url" "url \<noteq> []"
    and key: "NEXT_PUBLIC_SUPABASE_ANON_KEY env = Some key" "key \<noteq> []"
    and fails: "error (getUser url key (case authorization req of Some a \<Rightarrow> a | None \<Rightarrow> [])) \<noteq> None \<or>
                user (getUser url key (case authorization req of Some a \<Rightarrow> a | None \<Rightarrow> [])) = None"
  shows "middleware toISOString getUser env now now2 store req =
     (Inr \<lparr>kind = Json, status = 401,
           headers = [(''content-type'', ''application/json'')],
           body = [(''error'', ''Unauthorized''),
                   (''message'', ''Valid authentication token required'')]\<rparr>, store)"
  using assms
  by (auto simp: middleware_def Let_def NextResponse_json_def split: option.splits)

text \<open>
  The theorem for the protected example path without an \<open>Authorization\<close> header and a
  verifier that rejects.
\<close>

theorem unauthenticated_request_gets_401_store_unchanged_witness:
  "\<not> isPublicRoute (pathname req_protected) \<and>
   authorization req_protected = None \<and>
   middleware date_text reject_all env0 500 501 sample_store req_protected =
     (Inr \<lparr>kind = Json, status = 401,
           headers = [(''content-type'', ''application/json'')],
           body = [(''error'', ''Unauthorized''),
                   (''message'', ''Valid authentication token required'')]\<rparr>, sample_store)"
proof -
  have p: "\<not> isPublicRoute (pathname req_protected)"
    by (simp add: req_protected_def not_public_example)
  have f: "error (reject_all ''https://example.supabase.co'' ''anon-key''
            (case authorization req_protected of Some a \<Rightarrow> a | None \<Rightarrow> [])) \<noteq> None \<or>
           user (reject_all ''https://example.supabase.co'' ''anon-key''
            (case authorization req_protected of Some a \<Rightarrow> a | None \<Rightarrow> [])) = None"
    by (simp add: reject_all_def)
  have "middleware date_text reject_all env0 500 501 sample_store req_protected =
     (Inr \<lparr>kind = Json, status = 401,
           headers = [(''content-type'', ''application/json'')],
           body = [(''error'', ''Unauthorized''),
                   (''message'', ''Valid authentication token required'')]\<rparr>, sample_store)"
    using p f
    by (intro unauthenticated_request_gets_401_store_unchanged [where url = "''https://example.supabase.co''" and key = "''anon-key''"])
      (simp_all add: env0_def)
  with p show ?thesis by (simp add: req_protected_def)
qed

subsection \<open>Headers of the rejections\<close>

text \<open>
  Claim C3 fails on the code. The gate sets the security headers on the pass-through
  response, and every rejection is a new response of \<open>NextResponse.json\<close> that does not
  get them. For a protected request without credentials the 401 response has the
  content type as its only header: none of \<open>X-Frame-Options\<close>,
  \<open>X-Content-Type-Options\<close>, \<open>Referrer-Policy\<close>, \<open>Permissions-Policy\<close> and
  \<open>Content-Security-Policy\<close> is present.
\<close>

theorem unauthorized_rejection_lacks_security_headers:
  "fst (middleware toISOString reject_all env0 now now2 store req_protected) =
     Inr \<lparr>kind = Json, status = 401,
          headers = [(''content-type'', ''application/json'')],
          body = [(''error'', ''Unauthorized''),
                  (''message'', ''Valid authentication token required'')]\<rparr> \<and>
   (case fst (middleware toISOString reject_all env0 now now2 store req_protected) of
      Inl e \<Rightarrow> []
    | Inr res \<Rightarrow>
        map (map_of (headers res))
          [''X-Frame-Options'', ''X-Content-Type-Options'', ''Referrer-Policy'',
           ''Permissions-Policy'', ''Content-Security-Policy'']) =
     [None, None, None, None, None]"
proof -
  have "fst (middleware toISOString reject_all env0 now now2 store req_protected) =
     Inr \<lparr>kind = Json, status = 401,
          headers = [(''content-type'', ''application/json'')],
          body = [(''error'', ''Unauthorized''),
                  (''message'', ''Valid authentication token required'')]\<rparr>"
    by (simp add: middleware_def Let_def NextResponse_json_def req_protected_def
        not_public_example env0_def reject_all_def)
  then show ?thesis by simp
qed

lemma toString_0: "toString 0 = ''0''"
  by (simp add: toString_def digits.simps)

lemma toString_10: "toString 10 = ''10''"
  by (simp add: toString_def digits.simps)

subsection \<open>The identifier of a public request\<close>

lemma rejection_has_reset:
  assumes "0 < L" "\<not> success (fst (createRateLimiter L W now store i))"
  shows "\<exists>t. hd (live_at W now (log_of store i)) = t \<and> live_at W now (log_of store i) \<noteq> [] \<and>
     reset (fst (createRateLimiter L W now store i)) = Some (t + W)"
proof -
  from assms(2) have full: "L \<le> int (length (live_at W now (log_of store i)))"
    by (simp add: createRateLimiter_success)
  with assms(1) obtain t rest where k: "live_at W now (log_of store i) = t # rest"
    by (cases "live_at W now (log_of store i)") auto
  with full show ?thesis
    by (simp add: createRateLimiter_reset)
qed

lemma public_rejection_headers:
  assumes "\<not> success (fst (publicRateLimit_limit now store i))"
  shows "\<exists>hs. rateLimitHeaders toISOString lim (fst (publicRateLimit_limit now store i)) now2 = Inr hs"
proof -
  from rejection_has_reset [of 10 "10 * 1000" now store i] assms
  obtain R where "reset (fst (publicRateLimit_limit now store i)) = Some R"
    by (auto simp: publicRateLimit_limit_def)
  then show ?thesis by (simp add: rateLimitHeaders_def)
qed

text \<open>
  Claim C7, amended. For a request of a public path the gate makes one check under the
  public policy, and its identifier is the direct address if there is one, else the
  value of the forwarded-for header as a whole (a list of several addresses is not
  split, so no first value is taken), else the literal \<open>unknown\<close>. The gate always answers
  such a request: it passes it on if the check succeeds and rejects it otherwise.
\<close>

theorem public_identifier_is_address_or_whole_header:
  assumes pub: "isPublicRoute (pathname req)"
    and ident: "ident = (case ip req of Some a \<Rightarrow> a
                 | None \<Rightarrow> (case x_forwarded_for req of Some h \<Rightarrow> h | None \<Rightarrow> ''unknown''))"
  shows "snd (middleware toISOString getUser env now now2 store req) =
           snd (publicRateLimit_limit now store ident) \<and>
         (\<exists>res. fst (middleware toISOString getUser env now now2 store req) = Inr res \<and>
            (kind res = Next \<longleftrightarrow> success (fst (publicRateLimit_limit now store ident))))"
proof (cases "success (fst (publicRateLimit_limit now store ident))")
  case True
  then show ?thesis
    using pub by (simp add: middleware_def Let_def ident [symmetric] case_prod_unfold headers_set_def NextResponse_next_def)
next
  case False
  from public_rejection_headers [OF False, of toISOString "''10''" now2]
  obtain hs where "rateLimitHeaders toISOString ''10'' (fst (publicRateLimit_limit now store ident)) now2 = Inr hs"
    by blast
  with False show ?thesis
    using pub by (simp add: middleware_def Let_def ident [symmetric] case_prod_unfold NextResponse_json_def)
qed

text \<open>
  The theorem for a request with a forwarded-for list only, and for one with no address.
\<close>

theorem public_identifier_is_address_or_whole_header_witness:
  "isPublicRoute (pathname req_forwarded) \<and>
   snd (middleware date_text reject_all env0 5 5 Map.empty req_forwarded) =
     snd (publicRateLimit_limit 5 Map.empty ''1.2.3.4, 5.6.7.8'') \<and>
   isPublicRoute (pathname req_anonymous) \<and>
   snd (middleware date_text reject_all env0 5 5 Map.empty req_anonymous) =
     snd (publicRateLimit_limit 5 Map.empty ''unknown'')"
proof -
  have p1: "isPublicRoute (pathname req_forwarded)"
    by (simp add: req_forwarded_def public_health)
  have i1: "''1.2.3.4, 5.6.7.8'' = (case ip req_forwarded of Some a \<Rightarrow> a
              | None \<Rightarrow> (case x_forwarded_for req_forwarded of Some h \<Rightarrow> h | None \<Rightarrow> ''unknown''))"
    by (simp add: req_forwarded_def)
  have p2: "isPublicRoute (pathname req_anonymous)"
    by (simp add: req_anonymous_def public_health)
  have i2: "''unknown'' = (case ip req_anonymous of Some a \<Rightarrow> a
              | None \<Rightarrow> (case x_forwarded_for req_anonymous of Some h \<Rightarrow> h | None \<Rightarrow> ''unknown''))"
    by (simp add: req_anonymous_def)
  from public_identifier_is_address_or_whole_header [OF p1 i1, of date_text reject_all env0 5 5 Map.empty]
    public_identifier_is_address_or_whole_header [OF p2 i2, of date_text reject_all env0 5 5 Map.empty] p1 p2
  show ?thesis by blast
qed

lemma first_check_forwarded:
  "publicRateLimit_limit 5 Map.empty ''1.2.3.4, 5.6.7.8'' =
     (\<lparr>success = True, remaining = 9, reset = Some 10005\<rparr>,
      [''1.2.3.4, 5.6.7.8'' \<mapsto> \<lparr>timestamps = [5]\<rparr>])"
  by (simp add: publicRateLimit_limit_def createRateLimiter_def)

lemma forwarded_store:
  "snd (middleware date_text reject_all env0 5 5 Map.empty req_forwarded) =
     [''1.2.3.4, 5.6.7.8'' \<mapsto> \<lparr>timestamps = [5]\<rparr>]"
  by (simp add: middleware_def Let_def req_forwarded_def public_health first_check_forwarded)

text \<open>
  Claim C7 as stated fails on "the first value wins". A public request without a direct
  address and with the forwarded-for header \<open>1.2.3.4, 5.6.7.8\<close>: the first value of the
  header is \<open>1.2.3.4\<close>, yet the store has no entry for it after the request; the timestamp
  is recorded under the whole header text.
\<close>

theorem forwarded_for_first_value_is_not_the_identifier:
  "x_forwarded_for req_forwarded = Some ''1.2.3.4, 5.6.7.8'' \<and>
   first_forwarded_value ''1.2.3.4, 5.6.7.8'' = ''1.2.3.4'' \<and>
   snd (middleware date_text reject_all env0 5 5 Map.empty req_forwarded) ''1.2.3.4'' = None \<and>
   log_of (snd (middleware date_text reject_all env0 5 5 Map.empty req_forwarded))
     ''1.2.3.4, 5.6.7.8'' = [5]"
proof -
  have "x_forwarded_for req_forwarded = Some ''1.2.3.4, 5.6.7.8''"
    by (simp add: req_forwarded_def)
  moreover have "first_forwarded_value ''1.2.3.4, 5.6.7.8'' = ''1.2.3.4''"
    by (simp add: first_forwarded_value_def)
  moreover have "snd (middleware date_text reject_all env0 5 5 Map.empty req_forwarded) ''1.2.3.4'' = None"
    by (simp add: forwarded_store)
  moreover have "log_of (snd (middleware date_text reject_all env0 5 5 Map.empty req_forwarded))
     ''1.2.3.4, 5.6.7.8'' = [5]"
    by (simp add: forwarded_store log_of_def)
  ultimately show ?thesis by blast
qed


subsection \<open>The responses in general\<close>

text \<open>
  A rate-limit rejection on either path has status 429 and the four headers: the limit of
  the policy, remaining 0, the reset time as a date, and the retry time
  \<open>ceil((reset - now2) / 1000)\<close> in seconds, where the reset time is the first live
  timestamp of the identifier plus the window. The body of the public path has the key
  \<open>error\<close> only; the body of the protected path has \<open>error\<close> and \<open>message\<close>.
\<close>

lemma rejection_result:
  assumes "0 < L" "\<not> success (fst (createRateLimiter L W now store i))"
  shows "fst (createRateLimiter L W now store i) =
     \<lparr>success = False, remaining = 0,
      reset = Some (hd (live_at W now (log_of store i)) + W)\<rparr>"
proof -
  from rejection_has_reset [OF assms]
  have "reset (fst (createRateLimiter L W now store i)) =
      Some (hd (live_at W now (log_of store i)) + W)"
    by auto
  moreover from assms(2) have "remaining (fst (createRateLimiter L W now store i)) = 0"
    by (simp add: createRateLimiter_remaining createRateLimiter_success)
  ultimately show ?thesis
    using assms(2) by (cases "fst (createRateLimiter L W now store i)") simp
qed

lemma public_rejection_response:
  assumes pub: "isPublicRoute (pathname req)"
    and ident: "ident = (case ip req of Some a \<Rightarrow> a
                 | None \<Rightarrow> (case x_forwarded_for req of Some h \<Rightarrow> h | None \<Rightarrow> ''unknown''))"
    and rej: "\<not> success (fst (publicRateLimit_limit now store ident))"
    and R: "R = hd (live_at 10000 now (log_of store ident)) + 10000"
  shows "fst (middleware toISOString getUser env now now2 store req) =
     Inr \<lparr>kind = Json, status = 429,
          headers = [(''X-RateLimit-Limit'', ''10''), (''X-RateLimit-Remaining'', ''0''),
                     (''X-RateLimit-Reset'', toISOString R),
                     (''Retry-After'', toString (- ((- (R - now2)) div 1000))),
                     (''content-type'', ''application/json'')],
          body = [(''error'', ''Too many requests. Please try again later.'')]\<rparr>"
proof -
  from rej have "fst (publicRateLimit_limit now store ident) =
      \<lparr>success = False, remaining = 0, reset = Some R\<rparr>"
    using rejection_result [of 10 "10 * 1000" now store ident]
    by (simp add: publicRateLimit_limit_def R)
  then show ?thesis
    using pub
    by (simp add: middleware_def Let_def ident [symmetric] case_prod_unfold
        rateLimitHeaders_def NextResponse_json_def toString_0 ceil_div_1000_def)
qed

lemma protected_rejection_response:
  assumes prot: "\<not> isPublicRoute (pathname req)"
    and url: "NEXT_PUBLIC_SUPABASE_URL env = Some url" "url \<noteq> []"
    and key: "NEXT_PUBLIC_SUPABASE_ANON_KEY env = Some key" "key \<noteq> []"
    and ok: "getUser url key (case authorization req of Some a \<Rightarrow> a | None \<Rightarrow> []) =
               \<lparr>user = Some u, error = None\<rparr>"
    and rej: "\<not> success (fst (rateLimit_limit now store (user_id u)))"
    and R: "R = hd (live_at 10000 now (log_of store (user_id u))) + 10000"
  shows "fst (middleware toISOString getUser env now now2 store req) =
     Inr \<lparr>kind = Json, status = 429,
          headers = [(''X-RateLimit-Limit'', ''50''), (''X-RateLimit-Remaining'', ''0''),
                     (''X-RateLimit-Reset'', toISOString R),
                     (''Retry-After'', toString (- ((- (R - now2)) div 1000))),
                     (''content-type'', ''application/json'')],
          body = [(''error'', ''Too many requests''),
                  (''message'', ''Rate limit exceeded. Please try again later.'')]\<rparr>"
proof -
  from rej have "fst (rateLimit_limit now store (user_id u)) =
      \<lparr>success = False, remaining = 0, reset = Some R\<rparr>"
    using rejection_result [of 50 "10 * 1000" now store "user_id u"]
    by (simp add: rateLimit_limit_def R)
  then show ?thesis
    using prot url key ok
    by (simp add: middleware_def Let_def case_prod_unfold
        rateLimitHeaders_def NextResponse_json_def toString_0 ceil_div_1000_def)
qed


text \<open>
  A response that is passed on carries the five security headers; a terminal response,
  whatever its status, carries none of them.
\<close>

lemma forwarded_response_security_headers:
  assumes "fst (middleware toISOString getUser env now now2 store req) = Inr res"
    and "kind res = Next"
  shows "map (map_of (headers res))
          [''X-Frame-Options'', ''X-Content-Type-Options'', ''Referrer-Policy'',
           ''Permissions-Policy'', ''Content-Security-Policy''] =
         [Some ''DENY'', Some ''nosniff'', Some ''strict-origin-when-cross-origin'',
          Some ''camera=(), microphone=(), geolocation=()'', Some cspHeader]"
  using assms
  by (auto simp: middleware_def Let_def case_prod_unfold headers_set_def NextResponse_next_def
      NextResponse_json_def split: if_splits option.splits sum.splits)

lemma terminal_response_security_headers:
  assumes "fst (middleware toISOString getUser env now now2 store req) = Inr res"
    and "kind res = Json"
  shows "map (map_of (headers res))
          [''X-Frame-Options'', ''X-Content-Type-Options'', ''Referrer-Policy'',
           ''Permissions-Policy'', ''Content-Security-Policy''] =
         [None, None, None, None, None]"
  using assms
  by (auto simp: middleware_def Let_def case_prod_unfold headers_set_def NextResponse_next_def
      NextResponse_json_def rateLimitHeaders_def split: if_splits option.splits sum.splits)


subsection \<open>Rate-limit rejections\<close>

text \<open>
  Claim C5, amended. Every rate-limit rejection, on the public path and on the protected
  path, is a terminal response with status 429 and the headers \<open>X-RateLimit-Limit\<close> (the
  limit of the policy, 10 or 50), \<open>X-RateLimit-Remaining\<close> equal to 0, \<open>X-RateLimit-Reset\<close>
  as the date text of the reset time, and \<open>Retry-After\<close> equal to
  \<open>ceil((reset - now2) / 1000)\<close> in whole seconds. The JSON body has the key \<open>error\<close> on
  both paths, and the key \<open>message\<close> on the protected path only.
\<close>

theorem rate_limit_rejections_are_429:
  "(isPublicRoute (pathname req) \<longrightarrow>
    ident = (case ip req of Some a \<Rightarrow> a
             | None \<Rightarrow> (case x_forwarded_for req of Some h \<Rightarrow> h | None \<Rightarrow> ''unknown'')) \<longrightarrow>
    \<not> success (fst (publicRateLimit_limit now store ident)) \<longrightarrow>
    reset (fst (publicRateLimit_limit now store ident)) = Some R \<longrightarrow>
    fst (middleware toISOString getUser env now now2 store req) =
      Inr \<lparr>kind = Json, status = 429,
           headers = [(''X-RateLimit-Limit'', ''10''), (''X-RateLimit-Remaining'', ''0''),
                      (''X-RateLimit-Reset'', toISOString R),
                      (''Retry-After'', toString (ceil_div_1000 (R - now2))),
                      (''content-type'', ''application/json'')],
           body = [(''error'', ''Too many requests. Please try again later.'')]\<rparr>) \<and>
   (\<not> isPublicRoute (pathname req) \<longrightarrow>
    NEXT_PUBLIC_SUPABASE_URL env = Some url \<longrightarrow> url \<noteq> [] \<longrightarrow>
    NEXT_PUBLIC_SUPABASE_ANON_KEY env = Some key \<longrightarrow> key \<noteq> [] \<longrightarrow>
    getUser url key (case authorization req of Some a \<Rightarrow> a | None \<Rightarrow> []) =
      \<lparr>user = Some u, error = None\<rparr> \<longrightarrow>
    \<not> success (fst (rateLimit_limit now store (user_id u))) \<longrightarrow>
    reset (fst (rateLimit_limit now store (user_id u))) = Some R' \<longrightarrow>
    fst (middleware toISOString getUser env now now2 store req) =
      Inr \<lparr>kind = Json, status = 429,
           headers = [(''X-RateLimit-Limit'', ''50''), (''X-RateLimit-Remaining'', ''0''),
                      (''X-RateLimit-Reset'', toISOString R'),
                      (''Retry-After'', toString (ceil_div_1000 (R' - now2))),
                      (''content-type'', ''application/json'')],
           body = [(''error'', ''Too many requests''),
                   (''message'', ''Rate limit exceeded. Please try again later.'')]\<rparr>)"
proof -
  have pub: "fst (middleware toISOString getUser env now now2 store req) =
      Inr \<lparr>kind = Json, status = 429,
           headers = [(''X-RateLimit-Limit'', ''10''), (''X-RateLimit-Remaining'', ''0''),
                      (''X-RateLimit-Reset'', toISOString R),
                      (''Retry-After'', toString (ceil_div_1000 (R - now2))),
                      (''content-type'', ''application/json'')],
           body = [(''error'', ''Too many requests. Please try again later.'')]\<rparr>"
    if p: "isPublicRoute (pathname req)"
      and i: "ident = (case ip req of Some a \<Rightarrow> a
             | None \<Rightarrow> (case x_forwarded_for req of Some h \<Rightarrow> h | None \<Rightarrow> ''unknown''))"
      and rej: "\<not> success (fst (publicRateLimit_limit now store ident))"
      and rst: "reset (fst (publicRateLimit_limit now store ident)) = Some R"
  proof -
    from rej rst have R: "R = hd (live_at 10000 now (log_of store ident)) + 10000"
      using rejection_result [of 10 "10 * 1000" now store ident]
      by (simp add: publicRateLimit_limit_def)
    have "fst (middleware toISOString getUser env now now2 store req) =
      Inr \<lparr>kind = Json, status = 429,
           headers = [(''X-RateLimit-Limit'', ''10''), (''X-RateLimit-Remaining'', ''0''),
                      (''X-RateLimit-Reset'', toISOString R),
                      (''Retry-After'', toString (- ((- (R - now2)) div 1000))),
                      (''content-type'', ''application/json'')],
           body = [(''error'', ''Too many requests. Please try again later.'')]\<rparr>"
      using p i rej R by (rule public_rejection_response)
    then show ?thesis
      by (simp add: ceil_div_1000_def)
  qed
  have prot: "fst (middleware toISOString getUser env now now2 store req) =
      Inr \<lparr>kind = Json, status = 429,
           headers = [(''X-RateLimit-Limit'', ''50''), (''X-RateLimit-Remaining'', ''0''),
                      (''X-RateLimit-Reset'', toISOString R'),
                      (''Retry-After'', toString (ceil_div_1000 (R' - now2))),
                      (''content-type'', ''application/json'')],
           body = [(''error'', ''Too many requests''),
                   (''message'', ''Rate limit exceeded. Please try again later.'')]\<rparr>"
    if p: "\<not> isPublicRoute (pathname req)"
      and url: "NEXT_PUBLIC_SUPABASE_URL env = Some url" "url \<noteq> []"
      and key: "NEXT_PUBLIC_SUPABASE_ANON_KEY env = Some key" "key \<noteq> []"
      and ok: "getUser url key (case authorization req of Some a \<Rightarrow> a | None \<Rightarrow> []) =
                 \<lparr>user = Some u, error = None\<rparr>"
      and rej: "\<not> success (fst (rateLimit_limit now store (user_id u)))"
      and rst: "reset (fst (rateLimit_limit now store (user_id u))) = Some R'"
  proof -
    from rej rst have R: "R' = hd (live_at 10000 now (log_of store (user_id u))) + 10000"
      using rejection_result [of 50 "10 * 1000" now store "user_id u"]
      by (simp add: rateLimit_limit_def)
    have "fst (middleware toISOString getUser env now now2 store req) =
      Inr \<lparr>kind = Json, status = 429,
           headers = [(''X-RateLimit-Limit'', ''50''), (''X-RateLimit-Remaining'', ''0''),
                      (''X-RateLimit-Reset'', toISOString R'),
                      (''Retry-After'', toString (- ((- (R' - now2)) div 1000))),
                      (''content-type'', ''application/json'')],
           body = [(''error'', ''Too many requests''),
                   (''message'', ''Rate limit exceeded. Please try again later.'')]\<rparr>"
      using p url key ok rej R by (rule protected_rejection_response)
    then show ?thesis
      by (simp add: ceil_div_1000_def)
  qed
  from pub prot show ?thesis by blast
qed

text \<open>
  The theorem for the health path from an address with ten live timestamps, and for the
  protected example path with a confirmed user who has fifty live timestamps.
\<close>

theorem rate_limit_rejections_are_429_witness:
  "fst (middleware date_text reject_all env0 10 10 full_public_store req_health) =
     Inr \<lparr>kind = Json, status = 429,
          headers = [(''X-RateLimit-Limit'', ''10''), (''X-RateLimit-Remaining'', ''0''),
                     (''X-RateLimit-Reset'', date_text 10000), (''Retry-After'', ''10''),
                     (''content-type'', ''application/json'')],
          body = [(''error'', ''Too many requests. Please try again later.'')]\<rparr> \<and>
   fst (middleware date_text accept_user42 env0 10 2500 full_subject_store req_authorized) =
     Inr \<lparr>kind = Json, status = 429,
          headers = [(''X-RateLimit-Limit'', ''50''), (''X-RateLimit-Remaining'', ''0''),
                     (''X-RateLimit-Reset'', date_text 10000), (''Retry-After'', ''8''),
                     (''content-type'', ''application/json'')],
          body = [(''error'', ''Too many requests''),
                  (''message'', ''Rate limit exceeded. Please try again later.'')]\<rparr>"
proof -
  have p1: "isPublicRoute (pathname req_health)"
    by (simp add: req_health_def public_health)
  have i1: "''1.2.3.4'' = (case ip req_health of Some a \<Rightarrow> a
             | None \<Rightarrow> (case x_forwarded_for req_health of Some h \<Rightarrow> h | None \<Rightarrow> ''unknown''))"
    by (simp add: req_health_def)
  have r1: "publicRateLimit_limit 10 full_public_store ''1.2.3.4'' =
      (\<lparr>success = False, remaining = 0, reset = Some 10000\<rparr>, full_public_store)"
    by (simp add: publicRateLimit_limit_def createRateLimiter_def full_public_store_def)
  have p2: "\<not> isPublicRoute (pathname req_authorized)"
    by (simp add: req_authorized_def not_public_example)
  have u2: "accept_user42 ''https://example.supabase.co'' ''anon-key''
      (case authorization req_authorized of Some a \<Rightarrow> a | None \<Rightarrow> []) =
      \<lparr>user = Some \<lparr>user_id = ''user-42'', user_email = None\<rparr>, error = None\<rparr>"
    by (simp add: accept_user42_def)
  have log2: "log_of full_subject_store ''user-42'' = replicate 50 0"
    by (simp add: log_of_def full_subject_store_def)
  have rej2: "\<not> success (fst (createRateLimiter 50 (10 * 1000) 10 full_subject_store ''user-42''))"
    by (simp add: createRateLimiter_success log2 filter_replicate)
  have r2: "fst (rateLimit_limit 10 full_subject_store ''user-42'') =
      \<lparr>success = False, remaining = 0, reset = Some 10000\<rparr>"
    using rejection_result [OF _ rej2]
    by (simp add: rateLimit_limit_def log2 filter_replicate)
  have e: "NEXT_PUBLIC_SUPABASE_URL env0 = Some ''https://example.supabase.co''"
    "NEXT_PUBLIC_SUPABASE_ANON_KEY env0 = Some ''anon-key''"
    by (simp_all add: env0_def)
  have t: "toString (ceil_div_1000 9990) = ''10''"
    "toString (ceil_div_1000 7500) = ''8''"
    by (simp_all add: ceil_div_1000_def toString_def digits.simps)
  note inst1 = rate_limit_rejections_are_429 [of req_health "''1.2.3.4''" 10 full_public_store 10000 date_text reject_all
      env0 10]
  note inst2 = rate_limit_rejections_are_429 [of req_authorized _ 10 full_subject_store _ date_text accept_user42 env0 2500
      "''https://example.supabase.co''" "''anon-key''"
      "\<lparr>user_id = ''user-42'', user_email = None\<rparr>" 10000]
  from inst1 p1 i1 r1 have a: "fst (middleware date_text reject_all env0 10 10 full_public_store req_health) =
     Inr \<lparr>kind = Json, status = 429,
          headers = [(''X-RateLimit-Limit'', ''10''), (''X-RateLimit-Remaining'', ''0''),
                     (''X-RateLimit-Reset'', date_text 10000), (''Retry-After'', ''10''),
                     (''content-type'', ''application/json'')],
          body = [(''error'', ''Too many requests. Please try again later.'')]\<rparr>"
    by (simp add: t)
  from inst2 p2 u2 r2 e have b: "fst (middleware date_text accept_user42 env0 10 2500 full_subject_store req_authorized) =
     Inr \<lparr>kind = Json, status = 429,
          headers = [(''X-RateLimit-Limit'', ''50''), (''X-RateLimit-Remaining'', ''0''),
                     (''X-RateLimit-Reset'', date_text 10000), (''Retry-After'', ''8''),
                     (''content-type'', ''application/json'')],
          body = [(''error'', ''Too many requests''),
                  (''message'', ''Rate limit exceeded. Please try again later.'')]\<rparr>"
    by (simp add: t)
  from a b show ?thesis by (rule conjI)
qed

text \<open>
  Claim C5 as stated fails on the public path. A request for the health path from an
  address with ten live timestamps is rejected with status 429 and the four headers,
  but the body has the key \<open>error\<close> only, and no \<open>message\<close>.
\<close>

theorem public_rate_limit_rejection_has_no_message:
  "fst (middleware date_text reject_all env0 10 10 full_public_store req_health) =
     Inr \<lparr>kind = Json, status = 429,
          headers = [(''X-RateLimit-Limit'', ''10''), (''X-RateLimit-Remaining'', ''0''),
                     (''X-RateLimit-Reset'', date_text 10000), (''Retry-After'', ''10''),
                     (''content-type'', ''application/json'')],
          body = [(''error'', ''Too many requests. Please try again later.'')]\<rparr> \<and>
   (case fst (middleware date_text reject_all env0 10 10 full_public_store req_health) of
      Inl e \<Rightarrow> None
    | Inr res \<Rightarrow> Some (map_of (body res) ''message'')) = Some None"
proof -
  have r: "publicRateLimit_limit 10 full_public_store ''1.2.3.4'' =
      (\<lparr>success = False, remaining = 0, reset = Some 10000\<rparr>, full_public_store)"
    by (simp add: publicRateLimit_limit_def createRateLimiter_def full_public_store_def)
  show ?thesis
    by (simp add: middleware_def Let_def req_health_def public_health r rateLimitHeaders_def
        NextResponse_json_def toString_0 toString_10 ceil_div_1000_def)
qed

end
